theory Spec2Isabelle
  imports Main
begin

section \<open>Data model (index.ts)\<close>

text \<open>
  \<^verbatim>\<open>RedirectCode = 301 | 302 | 307 | 308\<close> is a TypeScript number type; at run time a
  status code is a number, so it is an \<open>int\<close> here.
\<close>

type_synonym RedirectCode = int

text \<open>\<^verbatim>\<open>interface RedirectProps\<close>: a validated and sanitized redirect object.\<close>

record RedirectProps =
  source :: string
  destination :: string
  code :: RedirectCode
  localized :: bool
  deleted :: bool

text \<open>
  \<^verbatim>\<open>interface RawRedirectProps\<close>: a raw spreadsheet row. The optional fields are unions:
  \<^verbatim>\<open>code?: string | number\<close>, \<^verbatim>\<open>localized?: string | boolean\<close>,
  \<^verbatim>\<open>deleted?: string | boolean\<close>; \<open>None\<close> is the absent field. The field names carry
  the prefix \<open>raw\<close> because a record of HOL cannot share field names with
  \<open>RedirectProps\<close>.
\<close>

datatype code_cell = CodeString string | CodeNumber int

datatype flag_cell = FlagString string | FlagBoolean bool

record RawRedirectProps =
  rawSource :: string
  rawDestination :: string
  rawCode :: "code_cell option"
  rawLocalized :: "flag_cell option"
  rawDeleted :: "flag_cell option"

text \<open>
  A rule of the bulk redirect list and its wrapper \<^verbatim>\<open>{ redirect: rule }\<close>
  (\<^verbatim>\<open>BulkRedirectListItem\<close>).
\<close>

record rule =
  source_url :: string
  target_url :: string
  status_code :: RedirectCode

record BulkRedirectListItem =
  redirect :: rule

text \<open>
  \<^verbatim>\<open>interface DirectomaticResponse\<close>, as far as \<^verbatim>\<open>uploadBatch\<close> decides on it:
  \<^verbatim>\<open>success?: boolean\<close> and \<^verbatim>\<open>bulkOperationsId?: string\<close>. The fields \<^verbatim>\<open>errors\<close>,
  \<^verbatim>\<open>messages\<close> and \<^verbatim>\<open>invalidRules\<close> are only printed.
\<close>

record DirectomaticResponse =
  success :: "bool option"
  bulkOperationsId :: "string option"

text \<open>
  The locale list of index.ts. The functions below take the locale list as an argument,
  so that they can be read at this list and at any other.
\<close>

definition Locales :: "string list" where
  "Locales =
     [''de-de'', ''en-au'', ''en-ca'', ''en-gb'', ''en-in'', ''en-us'', ''es-es'', ''fr-fr'',
      ''id-id'', ''it-it'', ''ja-jp'', ''ko-kr'', ''nl-nl'', ''pt-br'', ''ru-ru'', ''sv-se'',
      ''th-th'', ''tr-tr'', ''vi-vn'', ''zh-cn'', ''zh-hans-cn'', ''zh-tw'']"

section \<open>Validators (validators.ts is not among the sources)\<close>

text \<open>
  \<^verbatim>\<open>validatePath\<close>, \<^verbatim>\<open>validateCode\<close> and \<^verbatim>\<open>validateBoolean\<close> are imported from
  \<^verbatim>\<open>./validators\<close>, which is not among the sources. The row processor and the commands
  take them as a parameter: a validator either returns its value (\<open>Inr\<close>) or throws
  (\<open>Inl\<close>), and being a function it answers the same way each time it is asked about
  the same value.
\<close>

datatype error = ValidationError string

record validators =
  validatePath :: "string \<Rightarrow> error + string"
  validateCode :: "code_cell option \<Rightarrow> RedirectCode \<Rightarrow> error + RedirectCode"
  validateBoolean :: "flag_cell option \<Rightarrow> bool \<Rightarrow> error + bool"

text \<open>
  Modelled from the spec: the three validators of validators.ts, which is missing from
  the sources, after section 4.1. They give the closed examples below a concrete
  validator to run; no general theorem depends on them.

  \<^item> \<open>validatePath\<close>: fails unless the value is a non-empty string recognizable as a URL
    path (an absolute path, or a full URL with an http or https scheme); returns the
    trimmed path.
  \<^item> \<open>validateBoolean\<close>: accepts a boolean, or the strings true and false in any letter
    case; falls back to the default when the field is absent or empty; fails on any
    other text.
  \<^item> \<open>validateCode\<close>: accepts an integer or a string of decimal digits; fails unless
    the number is one of 301, 302, 307, 308; falls back to the default when absent.
\<close>

definition trim :: "string \<Rightarrow> string" where
  "trim s = rev (dropWhile (\<lambda>c. c = CHR '' '') (rev (dropWhile (\<lambda>c. c = CHR '' '') s)))"

fun startsWith :: "string \<Rightarrow> string \<Rightarrow> bool" where
  "startsWith s [] = True"
| "startsWith [] (p # ps) = False"
| "startsWith (c # cs) (p # ps) = (c = p \<and> startsWith cs ps)"

definition specValidatePath :: "string \<Rightarrow> error + string" where
  "specValidatePath v =
     (let p = trim v in
      if p = [] then Inl (ValidationError ''empty path'')
      else if startsWith p ''/'' \<or> startsWith p ''http://'' \<or> startsWith p ''https://''
        then Inr p
      else Inl (ValidationError ''not a path''))"

definition toLowerChar :: "char \<Rightarrow> char" where
  "toLowerChar c =
     (let n = (of_char c :: nat) in if 65 \<le> n \<and> n \<le> 90 then char_of (n + 32) else c)"

definition specValidateBoolean :: "flag_cell option \<Rightarrow> bool \<Rightarrow> error + bool" where
  "specValidateBoolean v dflt =
     (case v of
        None \<Rightarrow> Inr dflt
      | Some (FlagBoolean b) \<Rightarrow> Inr b
      | Some (FlagString s) \<Rightarrow>
          (let t = map toLowerChar s in
           if t = [] then Inr dflt
           else if t = ''true'' then Inr True
           else if t = ''false'' then Inr False
           else Inl (ValidationError ''not a boolean'')))"

definition digitValue :: "char \<Rightarrow> int option" where
  "digitValue c =
     (let n = (of_char c :: nat) in if 48 \<le> n \<and> n \<le> 57 then Some (int n - 48) else None)"

fun parseDigits :: "int \<Rightarrow> string \<Rightarrow> int option" where
  "parseDigits acc [] = Some acc"
| "parseDigits acc (c # cs) =
     (case digitValue c of None \<Rightarrow> None | Some d \<Rightarrow> parseDigits (10 * acc + d) cs)"

definition checkCode :: "int \<Rightarrow> error + RedirectCode" where
  "checkCode n =
     (if n = 301 \<or> n = 302 \<or> n = 307 \<or> n = 308 then Inr n
      else Inl (ValidationError ''not a redirect code''))"

definition specValidateCode :: "code_cell option \<Rightarrow> RedirectCode \<Rightarrow> error + RedirectCode" where
  "specValidateCode v dflt =
     (case v of
        None \<Rightarrow> Inr dflt
      | Some (CodeNumber n) \<Rightarrow> checkCode n
      | Some (CodeString s) \<Rightarrow>
          (if s = [] then Inl (ValidationError ''not a number'')
           else case parseDigits 0 s of
                  None \<Rightarrow> Inl (ValidationError ''not a number'')
                | Some n \<Rightarrow> checkCode n))"

definition specValidators :: validators where
  "specValidators =
     \<lparr> validatePath = specValidatePath,
       validateCode = specValidateCode,
       validateBoolean = specValidateBoolean \<rparr>"

section \<open>Row processor (processing: processSheetRow)\<close>

text \<open>
  The \<^verbatim>\<open>try\<close> block of \<^verbatim>\<open>processSheetRow\<close>: the object literal evaluates the five
  validators in the order written; the first one that throws leaves the block.
\<close>

definition validateFields :: "validators \<Rightarrow> RawRedirectProps \<Rightarrow> error + RedirectProps" where
  "validateFields V input =
     (case validatePath V (rawSource input) of
        Inl e \<Rightarrow> Inl e
      | Inr s \<Rightarrow>
     (case validatePath V (rawDestination input) of
        Inl e \<Rightarrow> Inl e
      | Inr d \<Rightarrow>
     (case validateCode V (rawCode input) 302 of
        Inl e \<Rightarrow> Inl e
      | Inr c \<Rightarrow>
     (case validateBoolean V (rawLocalized input) True of
        Inl e \<Rightarrow> Inl e
      | Inr l \<Rightarrow>
     (case validateBoolean V (rawDeleted input) False of
        Inl e \<Rightarrow> Inl e
      | Inr del \<Rightarrow>
          Inr \<lparr> source = s, destination = d, code = c, localized = l, deleted = del \<rparr>)))))"

text \<open>
  \<^verbatim>\<open>processSheetRow\<close>: \<open>None\<close> is the returned \<^verbatim>\<open>null\<close>. The \<^verbatim>\<open>catch\<close> swallows the
  exception; the \<^verbatim>\<open>console.log\<close> lines are not modelled.
\<close>

definition processSheetRow :: "validators \<Rightarrow> RawRedirectProps \<Rightarrow> RedirectProps option" where
  "processSheetRow V input =
     (case validateFields V input of
        Inl e \<Rightarrow> None
      | Inr redir \<Rightarrow>
          if source redir = destination redir then None
          else if deleted redir then None
          else Some redir)"

section \<open>The list command (index.ts: list)\<close>

text \<open>
  The \<^verbatim>\<open>flatMap\<close> callback of \<^verbatim>\<open>list\<close>, row by row, with the two lists it builds:
  \<^verbatim>\<open>redirectsList\<close> (the callback's results) and \<^verbatim>\<open>badRows\<close> (pushed to). The second
  call of \<^verbatim>\<open>validateBoolean\<close> stands outside any \<^verbatim>\<open>try\<close>: when it throws, the exception
  leaves the callback, \<^verbatim>\<open>flatMap\<close> and \<^verbatim>\<open>list\<close>, and nothing is printed.
\<close>

record list_report =
  redirectsList :: "RedirectProps list"
  badRows :: "RawRedirectProps list"

fun list_rows ::
  "validators \<Rightarrow> RawRedirectProps list \<Rightarrow> RedirectProps list \<Rightarrow> RawRedirectProps list
     \<Rightarrow> error + list_report" where
  "list_rows V [] good bad = Inr \<lparr> redirectsList = good, badRows = bad \<rparr>"
| "list_rows V (row # rows) good bad =
     (case processSheetRow V row of
        Some output \<Rightarrow> list_rows V rows (good @ [output]) bad
      | None \<Rightarrow>
          (case validateBoolean V (rawDeleted row) False of
             Inl e \<Rightarrow> Inl e
           | Inr d \<Rightarrow> list_rows V rows good (if \<not> d then bad @ [row] else bad)))"

text \<open>
  \<^verbatim>\<open>list\<close>, given the rows \<^verbatim>\<open>fetchRedirectRows\<close> returned: either the exception that
  ended the run, or the two lists the report prints.
\<close>

definition list_command :: "validators \<Rightarrow> RawRedirectProps list \<Rightarrow> error + list_report" where
  "list_command V inputRows = list_rows V inputRows [] []"

section \<open>Locale expansion (processing: makeFullURL, processBulkList)\<close>

text \<open>\<^verbatim>\<open>String.prototype.indexOf\<close> for a one-character search string: -1 when absent.\<close>

fun indexOf :: "string \<Rightarrow> char \<Rightarrow> int" where
  "indexOf [] c = - 1"
| "indexOf (x # xs) c =
     (if x = c then 0 else (let i = indexOf xs c in if i < 0 then - 1 else i + 1))"

text \<open>
  JavaScript truthiness of an optional string (\<^verbatim>\<open>locale ? ... : ...\<close>,
  \<^verbatim>\<open>if (uploadResponse.bulkOperationsId)\<close>): \<^verbatim>\<open>undefined\<close> and the empty string are falsy.
\<close>

fun truthy :: "string option \<Rightarrow> bool" where
  "truthy None = False"
| "truthy (Some s) = (s \<noteq> [])"

text \<open>
  \<^verbatim>\<open>makeFullURL(path, locale?)\<close>. \<^verbatim>\<open>DEFAULT_DEST_DOMAIN\<close> is a global of the deployment's
  configuration, taken as the first argument.
\<close>

definition makeFullURL :: "string \<Rightarrow> string \<Rightarrow> string option \<Rightarrow> string" where
  "makeFullURL DEFAULT_DEST_DOMAIN path locale =
     (if indexOf path CHR ''/'' = 0
      then DEFAULT_DEST_DOMAIN @ (if truthy locale then ''/'' @ the locale else '''') @ path
      else path)"

text \<open>The \<^verbatim>\<open>for (const locale of Locales)\<close> loop, pushing to \<^verbatim>\<open>list\<close>.\<close>

fun localeLoop :: "string \<Rightarrow> RedirectProps \<Rightarrow> string list \<Rightarrow> rule list \<Rightarrow> rule list" where
  "localeLoop D row [] lst = lst"
| "localeLoop D row (locale # rest) lst =
     (if locale = ''en-us'' then localeLoop D row rest lst
      else localeLoop D row rest
             (lst @ [\<lparr> source_url = makeFullURL D (source row) (Some locale),
                       target_url = makeFullURL D (destination row) (Some locale),
                       status_code = code row \<rparr>]))"

text \<open>The \<^verbatim>\<open>flatMap\<close> callback of \<^verbatim>\<open>processBulkList\<close> for one row.\<close>

definition expandRow :: "string list \<Rightarrow> string \<Rightarrow> RedirectProps \<Rightarrow> BulkRedirectListItem list" where
  "expandRow locales D row =
     (let lst0 = [\<lparr> source_url = makeFullURL D (source row) None,
                     target_url = makeFullURL D (destination row) None,
                     status_code = code row \<rparr>];
          lst1 = (if localized row then localeLoop D row locales lst0 else lst0)
      in map (\<lambda>r. \<lparr> redirect = r \<rparr>) lst1)"

definition processBulkList ::
  "string list \<Rightarrow> string \<Rightarrow> RedirectProps list \<Rightarrow> BulkRedirectListItem list" where
  "processBulkList locales D input = concat (map (expandRow locales D) input)"

section \<open>Rule matcher and the diff command (index.ts: diff)\<close>

text \<open>
  Modelled from the spec: \<^verbatim>\<open>ruleEquals\<close> and \<^verbatim>\<open>ruleInList\<close>, which index.ts imports
  from \<^verbatim>\<open>./processing\<close>; the processing file among the sources does not define them.
  After section 4.3: \<open>ruleEquals\<close> is structural equality on source_url, target_url
  and status_code, ignoring the wrapper; \<open>ruleInList rule list\<close> is true iff some
  element of the list is \<open>ruleEquals\<close> to the rule.
\<close>

definition ruleEquals :: "BulkRedirectListItem \<Rightarrow> BulkRedirectListItem \<Rightarrow> bool" where
  "ruleEquals a b =
     (source_url (redirect a) = source_url (redirect b) \<and>
      target_url (redirect a) = target_url (redirect b) \<and>
      status_code (redirect a) = status_code (redirect b))"

definition ruleInList :: "BulkRedirectListItem \<Rightarrow> BulkRedirectListItem list \<Rightarrow> bool" where
  "ruleInList r lst = list_ex (ruleEquals r) lst"

text \<open>
  The two filters of \<^verbatim>\<open>diff\<close> (lines 168 to 175), given \<^verbatim>\<open>spreadsheetList\<close> (what
  \<^verbatim>\<open>makeBulkList\<close> made of the processed rows) and \<^verbatim>\<open>cloudflareList\<close> (what
  \<^verbatim>\<open>getBulkListContents\<close> returned). The rest of the command prints the two lists.
\<close>

record diff_report =
  addedRules :: "BulkRedirectListItem list"
  removedRules :: "BulkRedirectListItem list"

definition diff :: "BulkRedirectListItem list \<Rightarrow> BulkRedirectListItem list \<Rightarrow> diff_report" where
  "diff spreadsheetList cloudflareList =
     \<lparr> addedRules = filter (\<lambda>r. \<not> ruleInList r cloudflareList) spreadsheetList,
       removedRules = filter (\<lambda>r. \<not> ruleInList r spreadsheetList) cloudflareList \<rparr>"

section \<open>Batch publisher (index.ts: publish, uploadBatch)\<close>

text \<open>
  The collaborators of outputs.ts are not among the sources. They are taken at the
  contract of section 6: each call returns a value. Their answers may depend on
  everything the run has asked so far, so each one reads the history of calls made
  before it. A run is observed through the calls it makes, in order.
\<close>

datatype call =
  EmptyBulkList
| UploadBulkList "BulkRedirectListItem list"
| GetBulkOpsStatus string
| SetListDescription

record remote =
  emptyBulkList :: "call list \<Rightarrow> bool"
  uploadBulkList :: "call list \<Rightarrow> BulkRedirectListItem list \<Rightarrow> DirectomaticResponse"
  getBulkOpsStatus :: "call list \<Rightarrow> string \<Rightarrow> bool"
  setListDescription :: "call list \<Rightarrow> bool"

text \<open>
  \<^verbatim>\<open>uploadBatch(i, batchList)\<close>: the returned boolean and the history after it. The batch
  number \<open>i\<close> is only printed.
\<close>

definition uploadBatch ::
  "remote \<Rightarrow> nat \<Rightarrow> BulkRedirectListItem list \<Rightarrow> call list \<Rightarrow> bool \<times> call list" where
  "uploadBatch R i batchList h =
     (let uploadResponse = uploadBulkList R h batchList;
          h1 = h @ [UploadBulkList batchList]
      in if truthy (bulkOperationsId uploadResponse)
         then (let ident = the (bulkOperationsId uploadResponse);
                   ok = getBulkOpsStatus R h1 ident;
                   h2 = h1 @ [GetBulkOpsStatus ident]
               in if ok then (True, h2) else (False, h2))
         else (case success uploadResponse of Some b \<Rightarrow> b | None \<Rightarrow> False, h1))"

text \<open>\<^verbatim>\<open>Array.prototype.slice(a, b)\<close> for \<open>0 \<le> a \<le> b\<close>: clamped to the array.\<close>

definition slice :: "'a list \<Rightarrow> nat \<Rightarrow> nat \<Rightarrow> 'a list" where
  "slice xs a b = take (b - a) (drop a xs)"

text \<open>
  The \<^verbatim>\<open>for (let n = 0; n < bulkList.length; n += batch)\<close> loop with \<^verbatim>\<open>batch = 1000\<close>:
  the loop variables \<open>n\<close> and \<open>i\<close>, the \<^verbatim>\<open>results\<close> array and the history.
\<close>

function publishLoop ::
  "remote \<Rightarrow> BulkRedirectListItem list \<Rightarrow> nat \<Rightarrow> nat \<Rightarrow> bool list \<Rightarrow> call list
     \<Rightarrow> bool list \<times> call list" where
  "publishLoop R bulkList n i results h =
     (if n < length bulkList
      then (case uploadBatch R (i + 1) (slice bulkList n (n + 1000)) h of
              (ok, h') \<Rightarrow> publishLoop R bulkList (n + 1000) (i + 1) (results @ [ok]) h')
      else (results, h))"
  by pat_completeness auto
termination
  by (relation "measure (\<lambda>(R, bulkList, n, i, results, h). length bulkList - n)") auto

declare publishLoop.simps [simp del]

text \<open>
  \<^verbatim>\<open>publish\<close> from the truncate on (lines 229 to 256), given \<^verbatim>\<open>bulkList\<close> (what
  \<^verbatim>\<open>makeBulkList\<close> made of the processed rows). The source awaits \<^verbatim>\<open>emptyBulkList()\<close>
  as a statement, so the value \<open>truncated\<close> is read by nothing; \<open>described\<close> only
  decides whether a line is printed. The source returns nothing and only prints; the
  model returns the \<^verbatim>\<open>results\<close> array and the calls made, to state what the run did.
\<close>

definition publish :: "remote \<Rightarrow> BulkRedirectListItem list \<Rightarrow> bool list \<times> call list" where
  "publish R bulkList =
     (let truncated = emptyBulkList R [];
          h0 = [EmptyBulkList]
      in case publishLoop R bulkList 0 0 [] h0 of
           (results, h1) \<Rightarrow>
             (let described = setListDescription R h1
              in (results, h1 @ [SetListDescription])))"

text \<open>The batches a history submitted to \<^verbatim>\<open>uploadBulkList\<close>, in order.\<close>

fun uploads :: "call list \<Rightarrow> BulkRedirectListItem list list" where
  "uploads [] = []"
| "uploads (UploadBulkList b # cs) = b # uploads cs"
| "uploads (c # cs) = uploads cs"

text \<open>
  The publisher as section 4.5 words it, to compare the loop with: the list cut into
  consecutive batches of 1000 in order, and a fold of \<open>uploadBatch\<close> over the batches
  that appends one result per batch whatever the earlier results were.
\<close>

definition batchCount :: "'a list \<Rightarrow> nat" where
  "batchCount xs = (length xs + 999) div 1000"

definition batches :: "'a list \<Rightarrow> 'a list list" where
  "batches xs = map (\<lambda>k. take 1000 (drop (1000 * k) xs)) [0..<batchCount xs]"

definition uploadStep ::
  "remote \<Rightarrow> bool list \<times> call list \<Rightarrow> BulkRedirectListItem list \<Rightarrow> bool list \<times> call list" where
  "uploadStep R st batchList =
     (case uploadBatch R (length (fst st) + 1) batchList (snd st) of
        (ok, h') \<Rightarrow> (fst st @ [ok], h'))"

section \<open>Example rules and remotes\<close>

text \<open>
  Concrete inputs for the closed examples: one rule, and remotes that answer in a fixed
  way. \<open>firstBatchFails\<close> rejects the first upload of a run synchronously and accepts
  the later ones; \<open>truncateFails\<close> fails the truncate and accepts every upload;
  \<open>asyncUpload\<close> answers with success true and the operation id op1, whose status
  polls as failed; \<open>syncUpload\<close> answers without an operation id, with success true
  for a non-empty batch and no success flag for an empty one.
\<close>

definition exampleItem :: BulkRedirectListItem where
  "exampleItem =
     \<lparr> redirect = \<lparr> source_url = ''https://example.com/a'',
                    target_url = ''https://example.com/b'', status_code = 302 \<rparr> \<rparr>"

definition firstBatchFails :: remote where
  "firstBatchFails =
     \<lparr> emptyBulkList = (\<lambda>h. True),
       uploadBulkList =
         (\<lambda>h batchList. \<lparr> success = Some (h \<noteq> [EmptyBulkList]), bulkOperationsId = None \<rparr>),
       getBulkOpsStatus = (\<lambda>h ident. True),
       setListDescription = (\<lambda>h. True) \<rparr>"

definition truncateFails :: remote where
  "truncateFails =
     \<lparr> emptyBulkList = (\<lambda>h. False),
       uploadBulkList = (\<lambda>h batchList. \<lparr> success = Some True, bulkOperationsId = None \<rparr>),
       getBulkOpsStatus = (\<lambda>h ident. True),
       setListDescription = (\<lambda>h. True) \<rparr>"

definition asyncUpload :: remote where
  "asyncUpload =
     \<lparr> emptyBulkList = (\<lambda>h. True),
       uploadBulkList =
         (\<lambda>h batchList. \<lparr> success = Some True, bulkOperationsId = Some ''op1'' \<rparr>),
       getBulkOpsStatus = (\<lambda>h ident. False),
       setListDescription = (\<lambda>h. True) \<rparr>"

definition syncUpload :: remote where
  "syncUpload =
     \<lparr> emptyBulkList = (\<lambda>h. True),
       uploadBulkList =
         (\<lambda>h batchList. \<lparr> success = (if batchList = [] then None else Some True),
                            bulkOperationsId = None \<rparr>),
       getBulkOpsStatus = (\<lambda>h ident. False),
       setListDescription = (\<lambda>h. True) \<rparr>"

section \<open>Facts about the row processor and the list command\<close>

lemma validateFields_paths:
  "validateFields V input = Inr r \<Longrightarrow>
     validatePath V (rawSource input) = Inr (source r) \<and>
     validatePath V (rawDestination input) = Inr (destination r)"
  by (auto simp: validateFields_def split: sum.splits)

lemma validateFields_throws:
  "validateBoolean V (rawDeleted input) False = Inl e \<Longrightarrow> \<exists>e'. validateFields V input = Inl e'"
  by (auto simp: validateFields_def split: sum.splits)

text \<open>
  When \<open>list\<close> gets to its report, \<open>badRows\<close> holds exactly the rows that
  \<open>processSheetRow\<close> rejected and whose \<open>deleted\<close> field validates to false.
\<close>

lemma list_rows_bad:
  "list_rows V rows good bad = Inr rep \<Longrightarrow>
     badRows rep =
       bad @ filter (\<lambda>row. processSheetRow V row = None \<and>
                             validateBoolean V (rawDeleted row) False = Inr False) rows"
proof (induction rows arbitrary: good bad)
  case Nil
  then show ?case by auto
next
  case (Cons row rows)
  then show ?case
    by (auto split: option.splits sum.splits if_splits)
qed

lemma list_rows_throws:
  "validateBoolean V (rawDeleted row) False = Inl e \<Longrightarrow> processSheetRow V row = None \<Longrightarrow>
     \<exists>e'. list_rows V (pre @ row # post) good bad = Inl e'"
proof (induction pre arbitrary: good bad)
  case Nil
  then show ?case by simp
next
  case (Cons p pre)
  then show ?case
    by (auto split: option.splits sum.splits)
qed

lemma toLower_TRUE: "map toLowerChar ''TRUE'' = ''true''"
  by code_simp

lemma specValidateBoolean_TRUE: "specValidateBoolean (Some (FlagString ''TRUE'')) dflt = Inr True"
  by (simp add: specValidateBoolean_def toLower_TRUE del: list.map)

lemmas spec_validator_simps =
  specValidators_def specValidatePath_def specValidateCode_def specValidateBoolean_def
  trim_def checkCode_def toLowerChar_def digitValue_def

text \<open>
  C10. Every record that \<open>processSheetRow\<close> returns (a result other than null) has
  \<open>deleted\<close> false: a row marked deleted never reaches expansion, diffing or publishing.
\<close>

theorem processSheetRow_never_deleted:
  "processSheetRow V input = Some r \<Longrightarrow> deleted r = False"
  by (auto simp: processSheetRow_def split: sum.splits if_splits)

theorem processSheetRow_never_deleted_witness:
  "processSheetRow specValidators
     \<lparr> rawSource = ''/a'', rawDestination = ''/b'', rawCode = Some (CodeString ''301''),
       rawLocalized = Some (FlagBoolean False), rawDeleted = Some (FlagString ''false'') \<rparr>
   = Some \<lparr> source = ''/a'', destination = ''/b'', code = 301, localized = False,
            deleted = False \<rparr> \<and>
   deleted \<lparr> source = ''/a'', destination = ''/b'', code = 301, localized = False,
             deleted = False \<rparr> = False"
proof -
  have h: "processSheetRow specValidators
     \<lparr> rawSource = ''/a'', rawDestination = ''/b'', rawCode = Some (CodeString ''301''),
       rawLocalized = Some (FlagBoolean False), rawDeleted = Some (FlagString ''false'') \<rparr>
   = Some \<lparr> source = ''/a'', destination = ''/b'', code = 301, localized = False,
            deleted = False \<rparr>"
    by (simp add: processSheetRow_def validateFields_def spec_validator_simps)
  show ?thesis
    by (rule conjI [OF h processSheetRow_never_deleted [OF h]])
qed

text \<open>
  C4. A raw row whose validated source equals its validated destination is rejected by
  \<open>processSheetRow\<close> (it returns null), whatever the other fields hold; in particular
  the row with source /a, destination /a and code 302 is rejected (the witness).
\<close>

theorem processSheetRow_self_redirect:
  "validatePath V (rawSource input) = Inr p \<Longrightarrow> validatePath V (rawDestination input) = Inr p \<Longrightarrow>
     processSheetRow V input = None"
  by (auto simp: processSheetRow_def split: sum.splits dest: validateFields_paths)

theorem processSheetRow_self_redirect_witness:
  "validatePath specValidators ''/a'' = Inr ''/a'' \<and>
   processSheetRow specValidators
     \<lparr> rawSource = ''/a'', rawDestination = ''/a'', rawCode = Some (CodeNumber 302),
       rawLocalized = None, rawDeleted = None \<rparr> = None"
proof -
  have h: "validatePath specValidators ''/a'' = Inr ''/a''"
    by (simp add: spec_validator_simps)
  have "processSheetRow specValidators
     \<lparr> rawSource = ''/a'', rawDestination = ''/a'', rawCode = Some (CodeNumber 302),
       rawLocalized = None, rawDeleted = None \<rparr> = None"
    by (rule processSheetRow_self_redirect [where p = "''/a''"]) (simp_all add: h)
  with h show ?thesis by (rule conjI)
qed

text \<open>
  C3. A raw row whose \<open>deleted\<close> field validates to true (in whatever encoding the
  validator accepts as true) and whose other fields are valid is rejected by
  \<open>processSheetRow\<close> (it returns null), and the list report leaves that row out of the
  invalid rows: listing the row alone reports no invalid row, and no report of any list
  of rows holds it among the invalid rows.
\<close>

theorem deleted_row_rejected_silently:
  assumes "validatePath V (rawSource input) = Inr s"
    and "validatePath V (rawDestination input) = Inr d"
    and "validateCode V (rawCode input) 302 = Inr c"
    and "validateBoolean V (rawLocalized input) True = Inr l"
    and "validateBoolean V (rawDeleted input) False = Inr True"
  shows "processSheetRow V input = None \<and>
         list_command V [input] = Inr \<lparr> redirectsList = [], badRows = [] \<rparr> \<and>
         (\<forall>rows rep. list_command V rows = Inr rep \<longrightarrow> input \<notin> set (badRows rep))"
proof -
  have v: "validateFields V input =
      Inr \<lparr> source = s, destination = d, code = c, localized = l, deleted = True \<rparr>"
    using assms by (simp add: validateFields_def)
  have p: "processSheetRow V input = None"
    by (simp add: processSheetRow_def v)
  have one: "list_command V [input] = Inr \<lparr> redirectsList = [], badRows = [] \<rparr>"
    using assms(5) by (simp add: list_command_def p)
  have "input \<notin> set (badRows rep)" if "list_command V rows = Inr rep" for rows rep
    using list_rows_bad [of V rows "[]" "[]" rep] that assms(5)
    by (auto simp: list_command_def)
  with p one show ?thesis by blast
qed

theorem deleted_row_rejected_silently_witness:
  "validateBoolean specValidators (Some (FlagString ''TRUE'')) False = Inr True \<and>
   processSheetRow specValidators
     \<lparr> rawSource = ''/old'', rawDestination = ''/new'', rawCode = None,
       rawLocalized = None, rawDeleted = Some (FlagString ''TRUE'') \<rparr> = None \<and>
   list_command specValidators
     [\<lparr> rawSource = ''/old'', rawDestination = ''/new'', rawCode = None,
        rawLocalized = None, rawDeleted = Some (FlagString ''TRUE'') \<rparr>]
     = Inr \<lparr> redirectsList = [], badRows = [] \<rparr>"
proof -
  have t: "validateBoolean specValidators (Some (FlagString ''TRUE'')) False = Inr True"
    by (simp add: specValidators_def specValidateBoolean_TRUE)
  have "processSheetRow specValidators
     \<lparr> rawSource = ''/old'', rawDestination = ''/new'', rawCode = None,
       rawLocalized = None, rawDeleted = Some (FlagString ''TRUE'') \<rparr> = None \<and>
   list_command specValidators
     [\<lparr> rawSource = ''/old'', rawDestination = ''/new'', rawCode = None,
        rawLocalized = None, rawDeleted = Some (FlagString ''TRUE'') \<rparr>]
     = Inr \<lparr> redirectsList = [], badRows = [] \<rparr>"
    using deleted_row_rejected_silently [of specValidators
      "\<lparr> rawSource = ''/old'', rawDestination = ''/new'', rawCode = None,
        rawLocalized = None, rawDeleted = Some (FlagString ''TRUE'') \<rparr>"
      "''/old''" "''/new''" 302 True]
    by (simp add: t) (simp add: specValidators_def specValidatePath_def specValidateCode_def
        trim_def specValidateBoolean_def)
  with t show ?thesis by (rule conjI)
qed

text \<open>
  C2. The claim: a raw row whose \<open>deleted\<close> field is garbage text (the boolean validator
  throws on it) is rejected by \<open>processSheetRow\<close>, and the list report, which is still
  produced, counts the row as invalid. What the code does: \<open>processSheetRow\<close> rejects
  the row, and then \<open>list\<close> asks \<open>validateBoolean\<close> about the same field a second time,
  outside any \<open>try\<close>. The validator throws again, so \<open>list\<close> ends with that exception
  and prints no report: not for the row alone, and not for any list of rows that holds
  it.
\<close>

theorem garbage_deleted_aborts_list:
  assumes "validateBoolean V (rawDeleted row) False = Inl e"
  shows "processSheetRow V row = None \<and>
         list_command V [row] = Inl e \<and>
         (\<forall>pre post. \<exists>e'. list_command V (pre @ row # post) = Inl e')"
proof -
  from validateFields_throws [OF assms] obtain e' where "validateFields V row = Inl e'" ..
  then have p: "processSheetRow V row = None"
    by (simp add: processSheetRow_def)
  have one: "list_command V [row] = Inl e"
    using assms by (simp add: list_command_def p)
  have "\<exists>e'. list_command V (pre @ row # post) = Inl e'" for pre post
    unfolding list_command_def by (rule list_rows_throws [OF assms p])
  with p one show ?thesis by blast
qed

theorem garbage_deleted_aborts_list_witness:
  "validateBoolean specValidators (Some (FlagString ''garbage'')) False
     = Inl (ValidationError ''not a boolean'') \<and>
   processSheetRow specValidators
     \<lparr> rawSource = ''/a'', rawDestination = ''/b'', rawCode = None,
       rawLocalized = None, rawDeleted = Some (FlagString ''garbage'') \<rparr> = None \<and>
   list_command specValidators
     [\<lparr> rawSource = ''/a'', rawDestination = ''/b'', rawCode = None,
        rawLocalized = None, rawDeleted = Some (FlagString ''garbage'') \<rparr>]
     = Inl (ValidationError ''not a boolean'')"
proof -
  have t: "validateBoolean specValidators (Some (FlagString ''garbage'')) False
     = Inl (ValidationError ''not a boolean'')"
    by (simp add: specValidators_def specValidateBoolean_def toLowerChar_def)
  have "processSheetRow specValidators
     \<lparr> rawSource = ''/a'', rawDestination = ''/b'', rawCode = None,
       rawLocalized = None, rawDeleted = Some (FlagString ''garbage'') \<rparr> = None \<and>
   list_command specValidators
     [\<lparr> rawSource = ''/a'', rawDestination = ''/b'', rawCode = None,
        rawLocalized = None, rawDeleted = Some (FlagString ''garbage'') \<rparr>]
     = Inl (ValidationError ''not a boolean'')"
    using garbage_deleted_aborts_list [of specValidators
      "\<lparr> rawSource = ''/a'', rawDestination = ''/b'', rawCode = None,
        rawLocalized = None, rawDeleted = Some (FlagString ''garbage'') \<rparr>"
      "ValidationError ''not a boolean''"]
    by (simp add: t)
  with t show ?thesis by (rule conjI)
qed

section \<open>Facts about locale expansion\<close>

lemma indexOf_nonneg_or_absent: "indexOf xs c = - 1 \<or> 0 \<le> indexOf xs c"
  by (induction xs) (auto simp: Let_def)

lemma indexOf_zero: "indexOf path c = 0 \<longleftrightarrow> take 1 path = [c]"
proof (cases path)
  case Nil
  then show ?thesis by simp
next
  case (Cons x xs)
  then show ?thesis
    using indexOf_nonneg_or_absent [of xs c] by (auto simp: Let_def)
qed

lemma makeFullURL_absolute: "take 1 path \<noteq> ''/'' \<Longrightarrow> makeFullURL D path locale = path"
  by (simp add: makeFullURL_def indexOf_zero)

lemma makeFullURL_relative:
  "take 1 path = ''/'' \<Longrightarrow>
     makeFullURL D path locale = D @ (if truthy locale then ''/'' @ the locale else []) @ path"
  by (simp add: makeFullURL_def indexOf_zero)

lemma localeLoop_unfold:
  "localeLoop D row locales lst =
     lst @ map (\<lambda>locale. \<lparr> source_url = makeFullURL D (source row) (Some locale),
                             target_url = makeFullURL D (destination row) (Some locale),
                             status_code = code row \<rparr>)
               (filter (\<lambda>locale. locale \<noteq> ''en-us'') locales)"
  by (induction locales arbitrary: lst) auto

lemma expandRow_unfold:
  "expandRow locales D row =
     \<lparr> redirect = \<lparr> source_url = makeFullURL D (source row) None,
                    target_url = makeFullURL D (destination row) None,
                    status_code = code row \<rparr> \<rparr> #
     (if localized row
      then map (\<lambda>locale. \<lparr> redirect = \<lparr> source_url = makeFullURL D (source row) (Some locale),
                                          target_url = makeFullURL D (destination row) (Some locale),
                                          status_code = code row \<rparr> \<rparr>)
               (filter (\<lambda>locale. locale \<noteq> ''en-us'') locales)
      else [])"
  by (simp add: expandRow_def localeLoop_unfold Let_def comp_def)

lemma en_us_not_made:
  assumes "loc \<noteq> Some ''en-us''"
  shows "makeFullURL D p loc \<noteq> D @ ''/en-us'' @ p"
proof -
  have a: "p \<noteq> ''/en-us'' @ p"
  proof
    assume "p = ''/en-us'' @ p"
    then have "length p = length (''/en-us'' @ p)" by (rule arg_cong)
    then show False by simp
  qed
  have b: "p \<noteq> D @ ''/en-us'' @ p"
  proof
    assume "p = D @ ''/en-us'' @ p"
    then have "length p = length (D @ ''/en-us'' @ p)" by (rule arg_cong)
    then show False by simp
  qed
  show ?thesis
  proof (cases "take 1 p = ''/''")
    case False
    then show ?thesis using b by (simp add: makeFullURL_absolute)
  next
    case rel: True
    show ?thesis
    proof (cases loc)
      case None
      then show ?thesis using a by (simp add: makeFullURL_relative [OF rel])
    next
      case (Some l)
      show ?thesis
      proof (cases "l = []")
        case True
        then show ?thesis using a Some by (simp add: makeFullURL_relative [OF rel])
      next
        case False
        from assms Some have "l \<noteq> ''en-us''" by simp
        then have "l @ p \<noteq> ''en-us'' @ p" by simp
        then show ?thesis using False Some by (simp add: makeFullURL_relative [OF rel])
      qed
    qed
  qed
qed

lemma expandRow_items:
  assumes "item \<in> set (expandRow locales D row)"
  shows "\<exists>loc. loc \<noteq> Some ''en-us'' \<and>
           source_url (redirect item) = makeFullURL D (source row) loc \<and>
           target_url (redirect item) = makeFullURL D (destination row) loc"
proof -
  from assms have "item = \<lparr> redirect = \<lparr> source_url = makeFullURL D (source row) None,
                    target_url = makeFullURL D (destination row) None,
                    status_code = code row \<rparr> \<rparr> \<or>
      (\<exists>l. l \<noteq> ''en-us'' \<and>
         item = \<lparr> redirect = \<lparr> source_url = makeFullURL D (source row) (Some l),
                    target_url = makeFullURL D (destination row) (Some l),
                    status_code = code row \<rparr> \<rparr>)"
    by (cases "localized row") (auto simp add: expandRow_unfold)
  then show ?thesis
  proof (elim disjE exE conjE)
    assume "item = \<lparr> redirect = \<lparr> source_url = makeFullURL D (source row) None,
                    target_url = makeFullURL D (destination row) None,
                    status_code = code row \<rparr> \<rparr>"
    then have "None \<noteq> Some ''en-us'' \<and>
           source_url (redirect item) = makeFullURL D (source row) None \<and>
           target_url (redirect item) = makeFullURL D (destination row) None"
      by simp
    then show ?thesis by (rule exI)
  next
    fix l
    assume "l \<noteq> ''en-us''"
      and "item = \<lparr> redirect = \<lparr> source_url = makeFullURL D (source row) (Some l),
                    target_url = makeFullURL D (destination row) (Some l),
                    status_code = code row \<rparr> \<rparr>"
    then have "Some l \<noteq> Some ''en-us'' \<and>
           source_url (redirect item) = makeFullURL D (source row) (Some l) \<and>
           target_url (redirect item) = makeFullURL D (destination row) (Some l)"
      by simp
    then show ?thesis by (rule exI)
  qed
qed

text \<open>
  C5. For a record with \<open>localized\<close> true, \<open>processBulkList\<close> on the one-record list
  gives exactly the base entry followed by one entry per locale of the locale list, in
  the list's order, leaving out \<open>en-us\<close>; for a record with \<open>localized\<close> false it gives
  exactly the base entry. No entry holds the \<open>en-us\<close> prefixing of the record's source
  or destination. With the locale list de-de, en-us, es-es the result is the three
  entries base, de-de, es-es in this order (the witness).
\<close>

theorem processBulkList_singleton:
  "processBulkList locales D [row] =
     \<lparr> redirect = \<lparr> source_url = makeFullURL D (source row) None,
                    target_url = makeFullURL D (destination row) None,
                    status_code = code row \<rparr> \<rparr> #
     (if localized row
      then map (\<lambda>locale. \<lparr> redirect = \<lparr> source_url = makeFullURL D (source row) (Some locale),
                                          target_url = makeFullURL D (destination row) (Some locale),
                                          status_code = code row \<rparr> \<rparr>)
               (filter (\<lambda>locale. locale \<noteq> ''en-us'') locales)
      else []) \<and>
   D @ ''/en-us'' @ source row
     \<notin> set (map (\<lambda>item. source_url (redirect item)) (processBulkList locales D [row])) \<and>
   D @ ''/en-us'' @ destination row
     \<notin> set (map (\<lambda>item. target_url (redirect item)) (processBulkList locales D [row]))"
proof (intro conjI)
  have single: "processBulkList locales D [row] = expandRow locales D row"
    by (simp add: processBulkList_def)
  show "processBulkList locales D [row] =
     \<lparr> redirect = \<lparr> source_url = makeFullURL D (source row) None,
                    target_url = makeFullURL D (destination row) None,
                    status_code = code row \<rparr> \<rparr> #
     (if localized row
      then map (\<lambda>locale. \<lparr> redirect = \<lparr> source_url = makeFullURL D (source row) (Some locale),
                                          target_url = makeFullURL D (destination row) (Some locale),
                                          status_code = code row \<rparr> \<rparr>)
               (filter (\<lambda>locale. locale \<noteq> ''en-us'') locales)
      else [])"
    unfolding single by (rule expandRow_unfold)
  show "D @ ''/en-us'' @ source row
     \<notin> set (map (\<lambda>item. source_url (redirect item)) (processBulkList locales D [row]))"
    unfolding single
  proof
    assume "D @ ''/en-us'' @ source row
        \<in> set (map (\<lambda>item. source_url (redirect item)) (expandRow locales D row))"
    then obtain item where mem: "item \<in> set (expandRow locales D row)"
      and eq: "source_url (redirect item) = D @ ''/en-us'' @ source row"
      by auto
    from expandRow_items [OF mem] obtain loc where "loc \<noteq> Some ''en-us''"
      and "source_url (redirect item) = makeFullURL D (source row) loc"
      by blast
    with en_us_not_made [of loc D "source row"] eq show False by simp
  qed
  show "D @ ''/en-us'' @ destination row
     \<notin> set (map (\<lambda>item. target_url (redirect item)) (processBulkList locales D [row]))"
    unfolding single
  proof
    assume "D @ ''/en-us'' @ destination row
        \<in> set (map (\<lambda>item. target_url (redirect item)) (expandRow locales D row))"
    then obtain item where mem: "item \<in> set (expandRow locales D row)"
      and eq: "target_url (redirect item) = D @ ''/en-us'' @ destination row"
      by auto
    from expandRow_items [OF mem] obtain loc where "loc \<noteq> Some ''en-us''"
      and "target_url (redirect item) = makeFullURL D (destination row) loc"
      by blast
    with en_us_not_made [of loc D "destination row"] eq show False by simp
  qed
qed

theorem processBulkList_singleton_witness:
  "processBulkList [''de-de'', ''en-us'', ''es-es''] ''https://example.com''
     [\<lparr> source = ''/a'', destination = ''/b'', code = 302, localized = True, deleted = False \<rparr>]
   = [\<lparr> redirect = \<lparr> source_url = ''https://example.com/a'',
                      target_url = ''https://example.com/b'', status_code = 302 \<rparr> \<rparr>,
      \<lparr> redirect = \<lparr> source_url = ''https://example.com/de-de/a'',
                      target_url = ''https://example.com/de-de/b'', status_code = 302 \<rparr> \<rparr>,
      \<lparr> redirect = \<lparr> source_url = ''https://example.com/es-es/a'',
                      target_url = ''https://example.com/es-es/b'', status_code = 302 \<rparr> \<rparr>] \<and>
   ''https://example.com/en-us/a''
     \<notin> set (map (\<lambda>item. source_url (redirect item))
         (processBulkList [''de-de'', ''en-us'', ''es-es''] ''https://example.com''
            [\<lparr> source = ''/a'', destination = ''/b'', code = 302, localized = True,
               deleted = False \<rparr>])) \<and>
   processBulkList [''de-de'', ''en-us'', ''es-es''] ''https://example.com''
     [\<lparr> source = ''/a'', destination = ''/b'', code = 302, localized = False, deleted = False \<rparr>]
   = [\<lparr> redirect = \<lparr> source_url = ''https://example.com/a'',
                      target_url = ''https://example.com/b'', status_code = 302 \<rparr> \<rparr>] \<and>
   length (processBulkList Locales ''https://example.com''
     [\<lparr> source = ''/a'', destination = ''/b'', code = 302, localized = True, deleted = False \<rparr>])
   = 22"
proof -
  note t = processBulkList_singleton [of "[''de-de'', ''en-us'', ''es-es'']" "''https://example.com''"
      "\<lparr> source = ''/a'', destination = ''/b'', code = 302, localized = True, deleted = False \<rparr>"]
  note f = processBulkList_singleton [of "[''de-de'', ''en-us'', ''es-es'']" "''https://example.com''"
      "\<lparr> source = ''/a'', destination = ''/b'', code = 302, localized = False, deleted = False \<rparr>"]
  note n = processBulkList_singleton [of Locales "''https://example.com''"
      "\<lparr> source = ''/a'', destination = ''/b'', code = 302, localized = True, deleted = False \<rparr>"]
  have a: "processBulkList [''de-de'', ''en-us'', ''es-es''] ''https://example.com''
     [\<lparr> source = ''/a'', destination = ''/b'', code = 302, localized = True, deleted = False \<rparr>]
   = [\<lparr> redirect = \<lparr> source_url = ''https://example.com/a'',
                      target_url = ''https://example.com/b'', status_code = 302 \<rparr> \<rparr>,
      \<lparr> redirect = \<lparr> source_url = ''https://example.com/de-de/a'',
                      target_url = ''https://example.com/de-de/b'', status_code = 302 \<rparr> \<rparr>,
      \<lparr> redirect = \<lparr> source_url = ''https://example.com/es-es/a'',
                      target_url = ''https://example.com/es-es/b'', status_code = 302 \<rparr> \<rparr>]"
    using t [THEN conjunct1] by (simp add: makeFullURL_def)
  have c: "''https://example.com/en-us/a''
     \<notin> set (map (\<lambda>item. source_url (redirect item))
         (processBulkList [''de-de'', ''en-us'', ''es-es''] ''https://example.com''
            [\<lparr> source = ''/a'', destination = ''/b'', code = 302, localized = True,
               deleted = False \<rparr>]))"
    using t [THEN conjunct2, THEN conjunct1] by (simp only: RedirectProps.simps append.simps simp_thms)
  have b: "processBulkList [''de-de'', ''en-us'', ''es-es''] ''https://example.com''
     [\<lparr> source = ''/a'', destination = ''/b'', code = 302, localized = False, deleted = False \<rparr>]
   = [\<lparr> redirect = \<lparr> source_url = ''https://example.com/a'',
                      target_url = ''https://example.com/b'', status_code = 302 \<rparr> \<rparr>]"
    using f [THEN conjunct1] by (simp add: makeFullURL_def)
  have d: "length (processBulkList Locales ''https://example.com''
     [\<lparr> source = ''/a'', destination = ''/b'', code = 302, localized = True, deleted = False \<rparr>])
   = 22"
    unfolding n [THEN conjunct1] by (simp add: Locales_def)
  from a c b d show ?thesis by (intro conjI)
qed

lemma Locales_nonempty: "[] \<notin> set Locales"
  by (simp add: Locales_def)

text \<open>
  C6. \<open>makeFullURL\<close> leaves a path that does not start with a slash unchanged for
  every optional locale, and every entry that \<open>processBulkList\<close> makes of a record
  keeps such a source or destination as it is, localized or not. A path that starts with
  a slash gets the default destination domain prepended, with a slash and the locale
  inserted between domain and path when a locale is supplied and nothing inserted when
  none is. A locale is a locale code, a non-empty string: the statement is proved for
  every non-empty locale and so for every element of \<open>Locales\<close>, which are the only
  locales the call sites pass.
\<close>

theorem makeFullURL_resolves:
  "(take 1 path \<noteq> ''/'' \<longrightarrow> makeFullURL D path loc = path) \<and>
   (take 1 path = ''/'' \<longrightarrow>
      makeFullURL D path None = D @ path \<and>
      (\<forall>l. l \<noteq> '''' \<longrightarrow> makeFullURL D path (Some l) = D @ ''/'' @ l @ path) \<and>
      (\<forall>l \<in> set Locales. makeFullURL D path (Some l) = D @ ''/'' @ l @ path)) \<and>
   (take 1 (source row) \<noteq> ''/'' \<longrightarrow>
      (\<forall>item \<in> set (processBulkList locales D [row]).
         source_url (redirect item) = source row)) \<and>
   (take 1 (destination row) \<noteq> ''/'' \<longrightarrow>
      (\<forall>item \<in> set (processBulkList locales D [row]).
         target_url (redirect item) = destination row))"
proof (intro conjI impI)
  show "makeFullURL D path loc = path" if "take 1 path \<noteq> ''/''"
    using that by (rule makeFullURL_absolute)
  show "makeFullURL D path None = D @ path" if "take 1 path = ''/''"
    using that by (simp add: makeFullURL_relative)
  show nonempty: "\<forall>l. l \<noteq> '''' \<longrightarrow> makeFullURL D path (Some l) = D @ ''/'' @ l @ path"
    if "take 1 path = ''/''"
    using that by (simp add: makeFullURL_relative)
  show "\<forall>l \<in> set Locales. makeFullURL D path (Some l) = D @ ''/'' @ l @ path"
    if rel: "take 1 path = ''/''"
  proof
    fix l
    assume "l \<in> set Locales"
    with Locales_nonempty have "l \<noteq> ''''" by blast
    with nonempty [OF rel] show "makeFullURL D path (Some l) = D @ ''/'' @ l @ path" by blast
  qed
  have single: "processBulkList locales D [row] = expandRow locales D row"
    by (simp add: processBulkList_def)
  show "\<forall>item \<in> set (processBulkList locales D [row]). source_url (redirect item) = source row"
    if "take 1 (source row) \<noteq> ''/''"
    unfolding single expandRow_unfold using that by (auto simp: makeFullURL_absolute)
  show "\<forall>item \<in> set (processBulkList locales D [row]). target_url (redirect item) = destination row"
    if "take 1 (destination row) \<noteq> ''/''"
    unfolding single expandRow_unfold using that by (auto simp: makeFullURL_absolute)
qed

theorem makeFullURL_resolves_witness:
  "take 1 ''https://other.example/x'' \<noteq> ''/'' \<and>
   makeFullURL ''https://example.com'' ''https://other.example/x'' (Some ''de-de'')
     = ''https://other.example/x'' \<and>
   take 1 ''/a'' = ''/'' \<and>
   makeFullURL ''https://example.com'' ''/a'' None = ''https://example.com/a'' \<and>
   ''de-de'' \<noteq> '''' \<and>
   makeFullURL ''https://example.com'' ''/a'' (Some ''de-de'') = ''https://example.com/de-de/a'' \<and>
   list_all (\<lambda>l. makeFullURL ''https://example.com'' ''/a'' (Some l)
                  = ''https://example.com'' @ ''/'' @ l @ ''/a'') Locales \<and>
   list_all (\<lambda>item. target_url (redirect item) = ''https://other.example/x'')
     (processBulkList [''de-de'', ''en-us'', ''es-es''] ''https://example.com''
        [\<lparr> source = ''/a'', destination = ''https://other.example/x'', code = 302,
           localized = True, deleted = False \<rparr>])"
proof -
  have abs: "take 1 ''https://other.example/x'' \<noteq> ''/''" by simp
  have rel: "take 1 ''/a'' = ''/''" by simp
  have ne: "''de-de'' \<noteq> ''''" by simp
  note t1 = makeFullURL_resolves [where path = "''https://other.example/x''"
      and D = "''https://example.com''" and loc = "Some ''de-de''"]
  note t2 = makeFullURL_resolves [where path = "''/a''" and D = "''https://example.com''"
      and locales = "[''de-de'', ''en-us'', ''es-es'']"
      and row = "\<lparr> source = ''/a'', destination = ''https://other.example/x'', code = 302,
           localized = True, deleted = False \<rparr>"]
  note inner = t2 [THEN conjunct2, THEN conjunct1, THEN mp, OF rel]
  have a: "makeFullURL ''https://example.com'' ''https://other.example/x'' (Some ''de-de'')
     = ''https://other.example/x''"
    using t1 [THEN conjunct1, THEN mp, OF abs] .
  have b: "makeFullURL ''https://example.com'' ''/a'' None = ''https://example.com/a''"
    using inner [THEN conjunct1] by simp
  have c: "makeFullURL ''https://example.com'' ''/a'' (Some ''de-de'') = ''https://example.com/de-de/a''"
    using inner [THEN conjunct2, THEN conjunct1, THEN spec, THEN mp, OF ne] by simp
  have e: "list_all (\<lambda>l. makeFullURL ''https://example.com'' ''/a'' (Some l)
                  = ''https://example.com'' @ ''/'' @ l @ ''/a'') Locales"
    using inner [THEN conjunct2, THEN conjunct2] by (simp only: list_all_iff)
  have d: "list_all (\<lambda>item. target_url (redirect item) = ''https://other.example/x'')
     (processBulkList [''de-de'', ''en-us'', ''es-es''] ''https://example.com''
        [\<lparr> source = ''/a'', destination = ''https://other.example/x'', code = 302,
           localized = True, deleted = False \<rparr>])"
    using t2 [THEN conjunct2, THEN conjunct2, THEN conjunct2]
    by (simp only: RedirectProps.simps abs list_all_iff simp_thms)
  from abs a rel b ne c e d show ?thesis by (intro conjI)
qed

section \<open>Facts about the diff command\<close>

lemma ruleEquals_iff: "ruleEquals a b \<longleftrightarrow> a = b"
  by (cases a, cases b) (auto simp: ruleEquals_def rule.equality)

lemma ruleInList_iff: "ruleInList r lst \<longleftrightarrow> (\<exists>x \<in> set lst. ruleEquals r x)"
  by (simp add: ruleInList_def list_ex_iff)

lemma ruleInList_member: "ruleInList r lst \<longleftrightarrow> r \<in> set lst"
  by (simp add: ruleInList_iff ruleEquals_iff)

text \<open>
  C7. \<open>diff\<close> is a set difference under \<open>ruleEquals\<close>: the added rules are the desired
  rules, in order, that are not \<open>ruleInList\<close> of the current list, and the removed
  rules are the current rules, in order, that are not \<open>ruleInList\<close> of the desired
  list. So \<open>diff X X\<close> has nothing added and nothing removed for every list \<open>X\<close>, and
  for distinct rules A, B, C the diff of [A, B] against [B, C] adds [A] and removes [C].
\<close>

theorem diff_set_difference:
  "addedRules (diff desired current) = filter (\<lambda>d. \<not> ruleInList d current) desired \<and>
   removedRules (diff desired current) = filter (\<lambda>c. \<not> ruleInList c desired) current \<and>
   set (addedRules (diff desired current)) = set desired - set current \<and>
   set (removedRules (diff desired current)) = set current - set desired \<and>
   set (addedRules (diff desired current))
     = {d \<in> set desired. \<not> (\<exists>c \<in> set current. ruleEquals d c)} \<and>
   set (removedRules (diff desired current))
     = {c \<in> set current. \<not> (\<exists>d \<in> set desired. ruleEquals c d)} \<and>
   diff X X = \<lparr> addedRules = [], removedRules = [] \<rparr> \<and>
   (A \<noteq> B \<and> B \<noteq> C \<and> A \<noteq> C \<longrightarrow>
      diff [A, B] [B, C] = \<lparr> addedRules = [A], removedRules = [C] \<rparr>)"
proof (intro conjI impI)
  show "addedRules (diff desired current) = filter (\<lambda>d. \<not> ruleInList d current) desired"
    by (simp add: diff_def)
  show "removedRules (diff desired current) = filter (\<lambda>c. \<not> ruleInList c desired) current"
    by (simp add: diff_def)
  show "set (addedRules (diff desired current)) = set desired - set current"
    by (auto simp: diff_def ruleInList_member)
  show "set (removedRules (diff desired current)) = set current - set desired"
    by (auto simp: diff_def ruleInList_member)
  show "set (addedRules (diff desired current))
     = {d \<in> set desired. \<not> (\<exists>c \<in> set current. ruleEquals d c)}"
    by (auto simp: diff_def ruleInList_iff)
  show "set (removedRules (diff desired current))
     = {c \<in> set current. \<not> (\<exists>d \<in> set desired. ruleEquals c d)}"
    by (auto simp: diff_def ruleInList_iff)
  show "diff X X = \<lparr> addedRules = [], removedRules = [] \<rparr>"
    by (simp add: diff_def ruleInList_member)
  show "diff [A, B] [B, C] = \<lparr> addedRules = [A], removedRules = [C] \<rparr>"
    if "A \<noteq> B \<and> B \<noteq> C \<and> A \<noteq> C"
    using that by (auto simp: diff_def ruleInList_member)
qed

theorem diff_set_difference_witness:
  "\<lparr> redirect = \<lparr> source_url = ''a'', target_url = ''x'', status_code = 301 \<rparr> \<rparr>
     \<noteq> \<lparr> redirect = \<lparr> source_url = ''b'', target_url = ''x'', status_code = 301 \<rparr> \<rparr> \<and>
   \<lparr> redirect = \<lparr> source_url = ''b'', target_url = ''x'', status_code = 301 \<rparr> \<rparr>
     \<noteq> \<lparr> redirect = \<lparr> source_url = ''b'', target_url = ''x'', status_code = 302 \<rparr> \<rparr> \<and>
   \<lparr> redirect = \<lparr> source_url = ''a'', target_url = ''x'', status_code = 301 \<rparr> \<rparr>
     \<noteq> \<lparr> redirect = \<lparr> source_url = ''b'', target_url = ''x'', status_code = 302 \<rparr> \<rparr> \<and>
   diff [\<lparr> redirect = \<lparr> source_url = ''a'', target_url = ''x'', status_code = 301 \<rparr> \<rparr>,
         \<lparr> redirect = \<lparr> source_url = ''b'', target_url = ''x'', status_code = 301 \<rparr> \<rparr>]
        [\<lparr> redirect = \<lparr> source_url = ''b'', target_url = ''x'', status_code = 301 \<rparr> \<rparr>,
         \<lparr> redirect = \<lparr> source_url = ''b'', target_url = ''x'', status_code = 302 \<rparr> \<rparr>]
     = \<lparr> addedRules =
           [\<lparr> redirect = \<lparr> source_url = ''a'', target_url = ''x'', status_code = 301 \<rparr> \<rparr>],
         removedRules =
           [\<lparr> redirect = \<lparr> source_url = ''b'', target_url = ''x'', status_code = 302 \<rparr> \<rparr>] \<rparr>"
proof -
  have d: "\<lparr> redirect = \<lparr> source_url = ''a'', target_url = ''x'', status_code = 301 \<rparr> \<rparr>
     \<noteq> \<lparr> redirect = \<lparr> source_url = ''b'', target_url = ''x'', status_code = 301 \<rparr> \<rparr> \<and>
   \<lparr> redirect = \<lparr> source_url = ''b'', target_url = ''x'', status_code = 301 \<rparr> \<rparr>
     \<noteq> \<lparr> redirect = \<lparr> source_url = ''b'', target_url = ''x'', status_code = 302 \<rparr> \<rparr> \<and>
   \<lparr> redirect = \<lparr> source_url = ''a'', target_url = ''x'', status_code = 301 \<rparr> \<rparr>
     \<noteq> \<lparr> redirect = \<lparr> source_url = ''b'', target_url = ''x'', status_code = 302 \<rparr> \<rparr>"
    by simp
  note t = diff_set_difference
    [where A = "\<lparr> redirect = \<lparr> source_url = ''a'', target_url = ''x'', status_code = 301 \<rparr> \<rparr>"
       and B = "\<lparr> redirect = \<lparr> source_url = ''b'', target_url = ''x'', status_code = 301 \<rparr> \<rparr>"
       and C = "\<lparr> redirect = \<lparr> source_url = ''b'', target_url = ''x'', status_code = 302 \<rparr> \<rparr>"]
  from d t [THEN conjunct2, THEN conjunct2, THEN conjunct2, THEN conjunct2, THEN conjunct2,
      THEN conjunct2, THEN conjunct2, THEN mp, OF d]
  show ?thesis by (simp only: conj_assoc simp_thms)
qed

section \<open>Facts about the batch publisher\<close>

lemma uploadBatch_batch_number: "uploadBatch R i batchList h = uploadBatch R j batchList h"
  by (simp add: uploadBatch_def)

lemma uploads_append: "uploads (xs @ ys) = uploads xs @ uploads ys"
  by (induction xs rule: uploads.induct) auto

lemma uploads_uploadBatch: "uploads (snd (uploadBatch R i batchList h)) = uploads h @ [batchList]"
  by (simp add: uploadBatch_def Let_def uploads_append)

lemma uploadBatch_extends: "\<exists>t. snd (uploadBatch R i batchList h) = h @ t"
  by (simp add: uploadBatch_def Let_def)

lemma batch_index: "k < batchCount xs \<longleftrightarrow> 1000 * k < length xs"
  unfolding batchCount_def by arith

lemma publishLoop_fold:
  "publishLoop R bulkList (1000 * k) i results h =
     foldl (uploadStep R) (results, h)
       (map (\<lambda>k. take 1000 (drop (1000 * k) bulkList)) [k..<batchCount bulkList])"
proof (induction "batchCount bulkList - k" arbitrary: k i results h)
  case 0
  then have le: "batchCount bulkList \<le> k" by simp
  then have "\<not> 1000 * k < length bulkList"
    by (simp add: batch_index [symmetric])
  then have stop: "publishLoop R bulkList (1000 * k) i results h = (results, h)"
    by (subst publishLoop.simps) simp
  from le have none: "[k..<batchCount bulkList] = []" by simp
  show ?case by (simp only: stop none list.map foldl_Nil)
next
  case (Suc m)
  then have lt: "k < batchCount bulkList" by simp
  then have n: "1000 * k < length bulkList" by (simp add: batch_index)
  have up: "[k..<batchCount bulkList] = k # [Suc k..<batchCount bulkList]"
    using lt by (rule upt_conv_Cons)
  from Suc have m: "m = batchCount bulkList - Suc k" by simp
  obtain ok h' where u: "uploadBatch R (i + 1) (take 1000 (drop (1000 * k) bulkList)) h = (ok, h')"
    by (cases "uploadBatch R (i + 1) (take 1000 (drop (1000 * k) bulkList)) h")
  have step: "uploadStep R (results, h) (take 1000 (drop (1000 * k) bulkList)) = (results @ [ok], h')"
    using u uploadBatch_batch_number [of R "length results + 1" _ h "i + 1"]
    by (simp add: uploadStep_def)
  have "publishLoop R bulkList (1000 * k) i results h =
        publishLoop R bulkList (1000 * Suc k) (i + 1) (results @ [ok]) h'"
    using n u by (subst publishLoop.simps) (simp add: slice_def add.commute)
  also have "\<dots> = foldl (uploadStep R) (results @ [ok], h')
       (map (\<lambda>k. take 1000 (drop (1000 * k) bulkList)) [Suc k..<batchCount bulkList])"
    by (rule Suc.hyps(1) [OF m])
  finally show ?case
    by (simp add: up step)
qed

lemma fold_uploads:
  "uploads (snd (foldl (uploadStep R) st bs)) = uploads (snd st) @ bs"
proof (induction bs arbitrary: st)
  case Nil
  then show ?case by simp
next
  case (Cons b bs)
  have "uploads (snd (uploadStep R st b)) = uploads (snd st) @ [b]"
    by (simp add: uploadStep_def split_beta uploads_uploadBatch)
  then show ?case by (simp add: Cons.IH)
qed

lemma fold_results:
  "length (fst (foldl (uploadStep R) st bs)) = length (fst st) + length bs"
proof (induction bs arbitrary: st)
  case Nil
  then show ?case by simp
next
  case (Cons b bs)
  have "length (fst (uploadStep R st b)) = length (fst st) + 1"
    by (simp add: uploadStep_def split_beta)
  then show ?case by (simp add: Cons.IH)
qed

lemma concat_batches_take:
  "concat (map (\<lambda>k. take 1000 (drop (1000 * k) xs)) [0..<n]) = take (1000 * n) xs"
proof (induction n)
  case 0
  then show ?case by simp
next
  case (Suc n)
  have "take (1000 * n) xs @ take 1000 (drop (1000 * n) xs) = take (1000 * n + 1000) xs"
    by (simp add: take_add)
  with Suc show ?case by (simp add: add.commute)
qed

lemma concat_batches: "concat (batches xs) = xs"
proof -
  have "length xs \<le> 1000 * batchCount xs"
    unfolding batchCount_def by arith
  then show ?thesis
    by (simp add: batches_def concat_batches_take)
qed

lemma publish_fold:
  "publish R bulkList =
     (case foldl (uploadStep R) ([], [EmptyBulkList]) (batches bulkList) of
        (results, h) \<Rightarrow> (results, h @ [SetListDescription]))"
  using publishLoop_fold [of R bulkList 0 0 "[]" "[EmptyBulkList]"]
  by (simp add: publish_def batches_def Let_def)

lemma publish_uploads: "uploads (snd (publish R bulkList)) = batches bulkList"
  by (simp add: publish_fold split_beta uploads_append fold_uploads)

lemma publish_results: "length (fst (publish R bulkList)) = length (batches bulkList)"
  by (simp add: publish_fold split_beta fold_results)

lemma batches_nth:
  "k < length (batches xs) \<Longrightarrow> batches xs ! k = take 1000 (drop (1000 * k) xs)"
  by (simp add: batches_def)

lemma batches_full:
  assumes "Suc k < length (batches xs)"
  shows "length (batches xs ! k) = 1000"
proof -
  from assms have "Suc k < batchCount xs" by (simp add: batches_def)
  then have "1000 * Suc k < length xs" by (simp only: batch_index)
  then show ?thesis using assms by (simp add: batches_nth)
qed

lemma batches_sizes:
  assumes "b \<in> set (batches xs)"
  shows "0 < length b \<and> length b \<le> 1000"
proof -
  from assms obtain k where k: "k < batchCount xs" and b: "b = take 1000 (drop (1000 * k) xs)"
    by (auto simp: batches_def)
  from k have "1000 * k < length xs" by (simp only: batch_index)
  then show ?thesis by (simp add: b)
qed

lemma batches_2500:
  assumes "length xs = 2500"
  shows "batches xs = [take 1000 xs, take 1000 (drop 1000 xs), drop 2000 xs]"
proof -
  have "batchCount xs = 3" using assms by (simp add: batchCount_def)
  moreover have "[0..<3] = [0, 1, 2::nat]" by (simp add: upt_rec)
  ultimately show ?thesis using assms by (simp add: batches_def)
qed

text \<open>
  C8. \<open>publish\<close> cuts the rule list into consecutive batches of 1000 in order (batch
  \<open>k\<close> is the slice from \<open>1000 k\<close> to \<open>1000 k + 1000\<close>; every batch but the last
  holds exactly 1000 rules, the last between 1 and 1000; together they are the list) and
  submits them one after the other: the run is the fold of \<open>uploadBatch\<close> over the
  batches, which goes on to the next batch whatever the earlier results were, and records
  one result per batch. A list of 2500 rules makes exactly 3 upload calls, the last with
  500 rules.
\<close>

theorem publish_batches:
  "publish R bulkList =
     (case foldl (uploadStep R) ([], [EmptyBulkList]) (batches bulkList) of
        (results, h) \<Rightarrow> (results, h @ [SetListDescription])) \<and>
   uploads (snd (publish R bulkList)) = batches bulkList \<and>
   length (fst (publish R bulkList)) = length (uploads (snd (publish R bulkList))) \<and>
   length (uploads (snd (publish R bulkList))) = (length bulkList + 999) div 1000 \<and>
   concat (uploads (snd (publish R bulkList))) = bulkList \<and>
   (\<forall>k. k < length (batches bulkList) \<longrightarrow>
      batches bulkList ! k = slice bulkList (1000 * k) (1000 * k + 1000)) \<and>
   (\<forall>k. Suc k < length (batches bulkList) \<longrightarrow> length (batches bulkList ! k) = 1000) \<and>
   (\<forall>b \<in> set (batches bulkList). 0 < length b \<and> length b \<le> 1000) \<and>
   (length bulkList = 2500 \<longrightarrow>
      length (uploads (snd (publish R bulkList))) = 3 \<and>
      length (last (uploads (snd (publish R bulkList)))) = 500)"
proof (intro conjI allI impI ballI)
  show "publish R bulkList =
     (case foldl (uploadStep R) ([], [EmptyBulkList]) (batches bulkList) of
        (results, h) \<Rightarrow> (results, h @ [SetListDescription]))"
    by (rule publish_fold)
  show "uploads (snd (publish R bulkList)) = batches bulkList"
    by (rule publish_uploads)
  show "length (fst (publish R bulkList)) = length (uploads (snd (publish R bulkList)))"
    by (simp only: publish_uploads publish_results)
  show "length (uploads (snd (publish R bulkList))) = (length bulkList + 999) div 1000"
    by (simp add: publish_uploads batches_def batchCount_def)
  show "concat (uploads (snd (publish R bulkList))) = bulkList"
    by (simp only: publish_uploads concat_batches)
  show "batches bulkList ! k = slice bulkList (1000 * k) (1000 * k + 1000)"
    if "k < length (batches bulkList)" for k
    using that by (simp add: batches_nth slice_def)
  show "length (batches bulkList ! k) = 1000" if "Suc k < length (batches bulkList)" for k
    using that by (rule batches_full)
  show "0 < length b" if "b \<in> set (batches bulkList)" for b
    using batches_sizes [OF that] by (rule conjunct1)
  show "length b \<le> 1000" if "b \<in> set (batches bulkList)" for b
    using batches_sizes [OF that] by (rule conjunct2)
  show "length (uploads (snd (publish R bulkList))) = 3" if "length bulkList = 2500"
    by (simp add: publish_uploads batches_2500 [OF that])
  show "length (last (uploads (snd (publish R bulkList)))) = 500" if "length bulkList = 2500"
    using that by (simp add: publish_uploads batches_2500 [OF that])
qed

theorem publish_batches_witness:
  "length (replicate 2500 exampleItem) = 2500 \<and>
   fst (publish firstBatchFails (replicate 2500 exampleItem)) = [False, True, True] \<and>
   uploads (snd (publish firstBatchFails (replicate 2500 exampleItem)))
     = [replicate 1000 exampleItem, replicate 1000 exampleItem, replicate 500 exampleItem] \<and>
   length (uploads (snd (publish firstBatchFails (replicate 2500 exampleItem)))) = 3 \<and>
   length (last (uploads (snd (publish firstBatchFails (replicate 2500 exampleItem))))) = 500"
proof -
  note t = publish_batches [of firstBatchFails "replicate 2500 exampleItem"]
  have len: "length (replicate 2500 exampleItem) = 2500" by simp
  have b: "batches (replicate 2500 exampleItem)
     = [replicate 1000 exampleItem, replicate 1000 exampleItem, replicate 500 exampleItem]"
    by (simp add: batches_2500 [OF len])
  have r: "fst (publish firstBatchFails (replicate 2500 exampleItem)) = [False, True, True]"
    unfolding t [THEN conjunct1] b
    by (simp add: uploadStep_def uploadBatch_def firstBatchFails_def)
  have u: "uploads (snd (publish firstBatchFails (replicate 2500 exampleItem)))
     = [replicate 1000 exampleItem, replicate 1000 exampleItem, replicate 500 exampleItem]"
    by (simp only: t [THEN conjunct2, THEN conjunct1] b)
  have n: "length (uploads (snd (publish firstBatchFails (replicate 2500 exampleItem)))) = 3 \<and>
   length (last (uploads (snd (publish firstBatchFails (replicate 2500 exampleItem))))) = 500"
    using t [THEN conjunct2, THEN conjunct2, THEN conjunct2, THEN conjunct2, THEN conjunct2,
      THEN conjunct2, THEN conjunct2, THEN conjunct2, THEN mp, OF len] .
  from len r u n show ?thesis by (intro conjI) (simp_all only: simp_thms)
qed

lemma fold_extends: "\<exists>t. snd (foldl (uploadStep R) st bs) = snd st @ t"
proof (induction bs arbitrary: st)
  case Nil
  then show ?case by simp
next
  case (Cons b bs)
  obtain t1 where t1: "snd (uploadStep R st b) = snd st @ t1"
    using uploadBatch_extends [of R "length (fst st) + 1" b "snd st"]
    by (auto simp: uploadStep_def split_beta)
  from Cons.IH [of "uploadStep R st b"] obtain t2
    where "snd (foldl (uploadStep R) (uploadStep R st b) bs) = snd (uploadStep R st b) @ t2" ..
  then show ?case by (simp add: t1)
qed

lemma publish_starts_with_truncate: "\<exists>rest. snd (publish R bulkList) = EmptyBulkList # rest"
proof -
  obtain t where "snd (foldl (uploadStep R) ([], [EmptyBulkList]) (batches bulkList))
      = [EmptyBulkList] @ t"
    using fold_extends [of R "([], [EmptyBulkList])" "batches bulkList"] by auto
  then show ?thesis by (simp add: publish_fold split_beta)
qed

lemma uploadBatch_truncate_field:
  "uploadBatch (R\<lparr>emptyBulkList := f\<rparr>) i batchList h = uploadBatch R i batchList h"
  by (simp add: uploadBatch_def Let_def)

lemma uploadStep_truncate_field: "uploadStep (R\<lparr>emptyBulkList := f\<rparr>) = uploadStep R"
  by (intro ext) (simp add: uploadStep_def uploadBatch_truncate_field)

lemma publish_truncate_field: "publish (R\<lparr>emptyBulkList := f\<rparr>) bulkList = publish R bulkList"
  by (simp only: publish_fold uploadStep_truncate_field)

text \<open>
  C1. The claim: a publish run whose truncate step fails makes no upload attempt and
  ends in a fatal report. What the code does: \<open>publish\<close> awaits \<open>emptyBulkList\<close> and
  drops its result, so after a truncate that returned failure the run still uploads.
  Here the truncate returns false and the one rule of the list is submitted.
\<close>

theorem publish_uploads_after_failed_truncate_counterexample:
  "emptyBulkList truncateFails [] = False \<and>
   snd (publish truncateFails [exampleItem])
     = [EmptyBulkList, UploadBulkList [exampleItem], SetListDescription] \<and>
   uploads (snd (publish truncateFails [exampleItem])) \<noteq> []"
proof -
  have b: "batches [exampleItem] = [[exampleItem]]"
    by (simp add: batches_def batchCount_def)
  have "snd (publish truncateFails [exampleItem])
     = [EmptyBulkList, UploadBulkList [exampleItem], SetListDescription]"
    unfolding publish_fold b by (simp add: uploadStep_def uploadBatch_def truncateFails_def)
  then show ?thesis by (simp add: truncateFails_def)
qed

text \<open>
  C1, amended. A publish run calls \<open>emptyBulkList\<close> first and does not read its result:
  a run whose truncate step returned failure makes the same calls and records the same
  results as the run against the same remote with a succeeding truncate. It submits
  every batch of the list, one upload attempt per started thousand of rules, and makes
  zero upload attempts only when the list is empty.
\<close>

theorem publish_ignores_truncate_result:
  assumes "emptyBulkList R [] = False"
  shows "(\<exists>rest. snd (publish R bulkList) = EmptyBulkList # rest) \<and>
         publish R bulkList = publish (R\<lparr>emptyBulkList := (\<lambda>h. True)\<rparr>) bulkList \<and>
         length (uploads (snd (publish R bulkList))) = (length bulkList + 999) div 1000 \<and>
         concat (uploads (snd (publish R bulkList))) = bulkList \<and>
         (uploads (snd (publish R bulkList)) = [] \<longleftrightarrow> bulkList = [])"
proof (intro conjI)
  show "\<exists>rest. snd (publish R bulkList) = EmptyBulkList # rest"
    by (rule publish_starts_with_truncate)
  show "publish R bulkList = publish (R\<lparr>emptyBulkList := (\<lambda>h. True)\<rparr>) bulkList"
    by (simp only: publish_truncate_field)
  show "length (uploads (snd (publish R bulkList))) = (length bulkList + 999) div 1000"
    by (simp add: publish_uploads batches_def batchCount_def)
  show c: "concat (uploads (snd (publish R bulkList))) = bulkList"
    by (simp only: publish_uploads concat_batches)
  show "uploads (snd (publish R bulkList)) = [] \<longleftrightarrow> bulkList = []"
  proof
    assume "uploads (snd (publish R bulkList)) = []"
    with c show "bulkList = []" by simp
  next
    assume "bulkList = []"
    then show "uploads (snd (publish R bulkList)) = []"
      by (simp add: publish_uploads batches_def batchCount_def)
  qed
qed

theorem publish_ignores_truncate_result_witness:
  "emptyBulkList truncateFails [] = False \<and>
   (\<exists>rest. snd (publish truncateFails [exampleItem, exampleItem]) = EmptyBulkList # rest) \<and>
   length (uploads (snd (publish truncateFails [exampleItem, exampleItem]))) = 1 \<and>
   concat (uploads (snd (publish truncateFails [exampleItem, exampleItem])))
     = [exampleItem, exampleItem]"
proof -
  have h: "emptyBulkList truncateFails [] = False"
    by (simp add: truncateFails_def)
  note t = publish_ignores_truncate_result [OF h, of "[exampleItem, exampleItem]"]
  from h t [THEN conjunct1] t [THEN conjunct2, THEN conjunct2, THEN conjunct1]
    t [THEN conjunct2, THEN conjunct2, THEN conjunct2, THEN conjunct1]
  show ?thesis by simp
qed

text \<open>
  C9. If the upload response holds a \<open>bulkOperationsId\<close> (the handle of the bulk
  operation assigned, a non-empty string), the batch's recorded outcome is the polled
  status of that operation, whatever the synchronous success flag says, and the
  operation is polled once, right after the upload. If no \<open>bulkOperationsId\<close> is
  present, nothing is polled and the outcome is the response's synchronous success flag,
  false when the flag is absent.
\<close>

theorem uploadBatch_outcome:
  "(bulkOperationsId (uploadBulkList R h batchList) = Some ident \<and> ident \<noteq> [] \<longrightarrow>
      uploadBatch R i batchList h =
        (getBulkOpsStatus R (h @ [UploadBulkList batchList]) ident,
         h @ [UploadBulkList batchList, GetBulkOpsStatus ident])) \<and>
   (bulkOperationsId (uploadBulkList R h batchList) = None \<longrightarrow>
      uploadBatch R i batchList h =
        (case success (uploadBulkList R h batchList) of Some b \<Rightarrow> b | None \<Rightarrow> False,
         h @ [UploadBulkList batchList]))"
  by (auto simp: uploadBatch_def Let_def)

theorem uploadBatch_outcome_witness:
  "bulkOperationsId (uploadBulkList asyncUpload [EmptyBulkList] [exampleItem]) = Some ''op1'' \<and>
   ''op1'' \<noteq> [] \<and>
   success (uploadBulkList asyncUpload [EmptyBulkList] [exampleItem]) = Some True \<and>
   uploadBatch asyncUpload 1 [exampleItem] [EmptyBulkList]
     = (False, [EmptyBulkList, UploadBulkList [exampleItem], GetBulkOpsStatus ''op1'']) \<and>
   bulkOperationsId (uploadBulkList syncUpload [EmptyBulkList] [exampleItem]) = None \<and>
   uploadBatch syncUpload 1 [exampleItem] [EmptyBulkList]
     = (True, [EmptyBulkList, UploadBulkList [exampleItem]]) \<and>
   bulkOperationsId (uploadBulkList syncUpload [EmptyBulkList] []) = None \<and>
   success (uploadBulkList syncUpload [EmptyBulkList] []) = None \<and>
   uploadBatch syncUpload 1 [] [EmptyBulkList] = (False, [EmptyBulkList, UploadBulkList []])"
proof -
  have a: "bulkOperationsId (uploadBulkList asyncUpload [EmptyBulkList] [exampleItem]) = Some ''op1'' \<and>
      ''op1'' \<noteq> []"
    by (simp add: asyncUpload_def)
  have s: "bulkOperationsId (uploadBulkList syncUpload [EmptyBulkList] [exampleItem]) = None"
    by (simp add: syncUpload_def)
  have e: "bulkOperationsId (uploadBulkList syncUpload [EmptyBulkList] []) = None"
    by (simp add: syncUpload_def)
  note t1 = uploadBatch_outcome [of asyncUpload "[EmptyBulkList]" "[exampleItem]" "''op1''" 1,
      THEN conjunct1, THEN mp, OF a]
  note t2 = uploadBatch_outcome [of syncUpload "[EmptyBulkList]" "[exampleItem]" _ 1,
      THEN conjunct2, THEN mp, OF s]
  note t3 = uploadBatch_outcome [of syncUpload "[EmptyBulkList]" "[]" _ 1,
      THEN conjunct2, THEN mp, OF e]
  have "uploadBatch asyncUpload 1 [exampleItem] [EmptyBulkList]
     = (False, [EmptyBulkList, UploadBulkList [exampleItem], GetBulkOpsStatus ''op1''])"
    unfolding t1 by (simp add: asyncUpload_def)
  moreover have "uploadBatch syncUpload 1 [exampleItem] [EmptyBulkList]
     = (True, [EmptyBulkList, UploadBulkList [exampleItem]])"
    unfolding t2 by (simp add: syncUpload_def)
  moreover have "uploadBatch syncUpload 1 [] [EmptyBulkList] = (False, [EmptyBulkList, UploadBulkList []])"
    unfolding t3 by (simp add: syncUpload_def)
  ultimately show ?thesis
    by (simp add: asyncUpload_def syncUpload_def)
qed

end
